theory Spec2Isabelle
  imports Complex_Main "HOL-Library.Char_ord" "HOL-Library.List_Lexorder"
begin

section \<open>Python values and the operations \<open>process_data\<close> applies to them\<close>

text \<open>
  \<open>json.load\<close> returns \<open>None\<close>, a bool, an int, a float, a str, a list or a dict whose
  keys are strs. A dict is an association list in insertion order; a well-formed one has
  distinct keys. Floats are the real numbers they denote: rounding, infinities and NaN
  are not part of this development.
\<close>

datatype pyval =
    PNone
  | PBool bool
  | PInt int
  | PFloat real
  | PStr string
  | PList "pyval list"
  | PDict "(string \<times> pyval) list"

datatype pyexc =
    KeyError pyval
  | ValueError
  | TypeError
  | IndexError
  | UnboundLocalError

text \<open>\<open>xs[i]\<close> on a sequence of length \<open>n\<close>: the indices \<open>0\<close> to \<open>n - 1\<close> and their
  aliases \<open>-n\<close> to \<open>-1\<close> are valid, every other one raises \<open>IndexError\<close>.\<close>

definition seq_getitem :: "'a list \<Rightarrow> int \<Rightarrow> pyexc + 'a" where
  "seq_getitem xs i =
     (if 0 \<le> i \<and> i < int (length xs) then Inr (xs ! nat i)
      else if i < 0 \<and> - int (length xs) \<le> i then Inr (xs ! nat (int (length xs) + i))
      else Inl IndexError)"

text \<open>The values usable as a sequence index or as an integer operand: ints and bools.\<close>

fun as_int :: "pyval \<Rightarrow> int option" where
  "as_int (PInt i) = Some i"
| "as_int (PBool b) = Some (if b then 1 else 0)"
| "as_int _ = None"

fun as_float :: "pyval \<Rightarrow> real option" where
  "as_float (PFloat r) = Some r"
| "as_float v = map_option real_of_int (as_int v)"

text \<open>
  \<open>obj[key]\<close>. A dict from JSON has only str keys, so any other hashable key is absent
  (\<open>KeyError\<close>) and an unhashable one (a list, a dict) raises \<open>TypeError\<close>. A list and a
  str take an integer index; everything else is not subscriptable.
\<close>

fun getitem :: "pyval \<Rightarrow> pyval \<Rightarrow> pyexc + pyval" where
  "getitem (PDict kvs) (PStr k) =
     (case map_of kvs k of None \<Rightarrow> Inl (KeyError (PStr k)) | Some v \<Rightarrow> Inr v)"
| "getitem (PDict kvs) (PList ks) = Inl TypeError"
| "getitem (PDict kvs) (PDict ks) = Inl TypeError"
| "getitem (PDict kvs) k = Inl (KeyError k)"
| "getitem (PList xs) k =
     (case as_int k of None \<Rightarrow> Inl TypeError | Some i \<Rightarrow> seq_getitem xs i)"
| "getitem (PStr s) k =
     (case as_int k of None \<Rightarrow> Inl TypeError
      | Some i \<Rightarrow> (case seq_getitem s i of Inl e \<Rightarrow> Inl e | Inr c \<Rightarrow> Inr (PStr [c])))"
| "getitem v k = Inl TypeError"

text \<open>\<open>a + b\<close>: integer addition (a bool counts as 0 or 1), float addition when a float
  is involved, concatenation of two strs or of two lists, \<open>TypeError\<close> otherwise.\<close>

definition add :: "pyval \<Rightarrow> pyval \<Rightarrow> pyexc + pyval" where
  "add a b =
     (case (as_int a, as_int b) of
        (Some i, Some j) \<Rightarrow> Inr (PInt (i + j))
      | _ \<Rightarrow>
        (case (as_float a, as_float b) of
           (Some x, Some y) \<Rightarrow> Inr (PFloat (x + y))
         | _ \<Rightarrow>
           (case (a, b) of
              (PStr s, PStr t) \<Rightarrow> Inr (PStr (s @ t))
            | (PList s, PList t) \<Rightarrow> Inr (PList (s @ t))
            | _ \<Rightarrow> Inl TypeError)))"

text \<open>\<open>for x in data\<close>: a dict yields its keys, a list its elements, a str its
  characters; the other values are not iterable.\<close>

fun iter :: "pyval \<Rightarrow> pyexc + pyval list" where
  "iter (PDict kvs) = Inr (map (\<lambda>kv. PStr (fst kv)) kvs)"
| "iter (PList xs) = Inr xs"
| "iter (PStr s) = Inr (map (\<lambda>c. PStr [c]) s)"
| "iter v = Inl TypeError"

section \<open>\<open>load_data\<close>\<close>

text \<open>
  The parser \<open>json.load\<close> is a library function: its outcome on the file is the input of
  the model. \<open>load_data\<close> returns the parsed value, or reports the error and returns
  \<open>None\<close>.
\<close>

datatype json_load = JSONDecodeError | Loaded pyval

datatype st_message =
    Invalid_JSON_file
  | Missing_key_in_record pyval pyval
  | Invalid_cost_or_token_value pyval
  | An_error_occurred pyval pyexc
  | No_valid_data_found

definition load_data :: "json_load \<Rightarrow> pyval \<times> st_message list" where
  "load_data file =
     (case file of Loaded data \<Rightarrow> (data, []) | JSONDecodeError \<Rightarrow> (PNone, [Invalid_JSON_file]))"

section \<open>\<open>process_data\<close>\<close>

text \<open>
  One element of \<open>processed_data\<close>, and one row of the data frame built from it. In
  \<open>processed_data\<close> every column holds a Python value; the frame that \<open>plot_data\<close>
  aggregates has str, float and int columns.
\<close>

record ('k, 'c, 't) row =
  model :: 'k
  total_cost :: 'c
  user :: 'k
  total_tokens :: 't

type_synonym pyrow = "(pyval, pyval, pyval) row"

text \<open>
  \<open>float(s)\<close> on a str is Python's own parser, taken as the parameter \<open>float_of_str\<close>:
  \<open>None\<close> where \<open>float\<close> raises \<open>ValueError\<close>. Lines 61 and 62 call it on strs only.
\<close>

definition ensure_float :: "(string \<Rightarrow> real option) \<Rightarrow> pyval \<Rightarrow> pyexc + pyval" where
  "ensure_float float_of_str cost =
     (case cost of
        PStr s \<Rightarrow> (case float_of_str s of None \<Rightarrow> Inl ValueError | Some x \<Rightarrow> Inr (PFloat x))
      | _ \<Rightarrow> Inr cost)"

text \<open>Lines 57 to 73, run once \<open>record\<close> is assigned: the row appended, or the
  exception raised.\<close>

definition make_row :: "(string \<Rightarrow> real option) \<Rightarrow> pyval \<Rightarrow> pyval \<Rightarrow> pyexc + pyrow" where
  "make_row float_of_str user_email record =
     (case getitem record (PStr ''model'') of Inl e \<Rightarrow> Inl e | Inr m \<Rightarrow>
      case getitem record (PStr ''total_cost'') of Inl e \<Rightarrow> Inl e | Inr cost \<Rightarrow>
      case ensure_float float_of_str cost of Inl e \<Rightarrow> Inl e | Inr cost' \<Rightarrow>
      case getitem record (PStr ''input_tokens'') of Inl e \<Rightarrow> Inl e | Inr input_tokens \<Rightarrow>
      case getitem record (PStr ''output_tokens'') of Inl e \<Rightarrow> Inl e | Inr output_tokens \<Rightarrow>
      case add input_tokens output_tokens of Inl e \<Rightarrow> Inl e | Inr tokens \<Rightarrow>
      Inr \<lparr>model = m, total_cost = cost', user = user_email, total_tokens = tokens\<rparr>)"

text \<open>
  The body of the \<open>try\<close> (lines 55 to 73). The local variable \<open>record\<close> lives across the
  iterations of the loop: it is unbound (\<open>None\<close>) until line 56 has assigned it once, and
  keeps the value of an earlier iteration when line 56 raises.
\<close>

definition try_body ::
  "(string \<Rightarrow> real option) \<Rightarrow> pyval \<Rightarrow> pyval \<Rightarrow> pyval option \<Rightarrow> pyval option \<times> (pyexc + pyrow)"
where
  "try_body float_of_str data user_email record =
     (case getitem data user_email of Inl e \<Rightarrow> (record, Inl e) | Inr entries \<Rightarrow>
      case getitem entries (PInt 0) of Inl e \<Rightarrow> (record, Inl e) | Inr r \<Rightarrow>
      (Some r, make_row float_of_str user_email r))"

text \<open>
  The three \<open>except\<close> clauses (lines 74 to 82). Each formats \<open>record\<close> into its message;
  reading the variable while it is unbound raises \<open>UnboundLocalError\<close> inside the handler,
  which no clause of the same \<open>try\<close> catches.
\<close>

definition message_of :: "pyexc \<Rightarrow> pyval \<Rightarrow> st_message" where
  "message_of e r =
     (case e of
        KeyError k \<Rightarrow> Missing_key_in_record k r
      | ValueError \<Rightarrow> Invalid_cost_or_token_value r
      | _ \<Rightarrow> An_error_occurred r e)"

definition handler :: "pyexc \<Rightarrow> pyval option \<Rightarrow> pyexc + st_message" where
  "handler e record =
     (case record of None \<Rightarrow> Inl UnboundLocalError | Some r \<Rightarrow> Inr (message_of e r))"

text \<open>The loop of line 53 over the remaining elements; the state is \<open>record\<close>,
  \<open>processed_data\<close> and the messages shown so far.\<close>

fun loop ::
  "(string \<Rightarrow> real option) \<Rightarrow> pyval \<Rightarrow> pyval list \<Rightarrow>
   pyval option \<times> pyrow list \<times> st_message list \<Rightarrow>
   pyexc + (pyval option \<times> pyrow list \<times> st_message list)"
where
  "loop float_of_str data [] st = Inr st"
| "loop float_of_str data (user_data # rest) (record, processed_data, shown) =
     (case try_body float_of_str data user_data record of
        (record', Inr r) \<Rightarrow> loop float_of_str data rest (record', processed_data @ [r], shown)
      | (record', Inl e) \<Rightarrow>
        (case handler e record' of
           Inl e' \<Rightarrow> Inl e'
         | Inr m \<Rightarrow> loop float_of_str data rest (record', processed_data, shown @ [m])))"

text \<open>\<open>process_data\<close>: the exception that leaves the function, or the list the data
  frame is built from and the messages shown.\<close>

definition process_data ::
  "(string \<Rightarrow> real option) \<Rightarrow> pyval \<Rightarrow> pyexc + (pyrow list \<times> st_message list)"
where
  "process_data float_of_str data =
     (case iter data of Inl e \<Rightarrow> Inl e | Inr users \<Rightarrow>
      case loop float_of_str data users (None, [], []) of Inl e \<Rightarrow> Inl e
      | Inr (record, processed_data, shown) \<Rightarrow>
        if processed_data = [] then Inr ([], shown @ [No_valid_data_found])
        else Inr (processed_data, shown))"

text \<open>Lines 202 to 204 of \<open>main\<close>: \<open>process_data\<close> runs unless \<open>load_data\<close> returned
  \<open>None\<close>.\<close>

definition main ::
  "(string \<Rightarrow> real option) \<Rightarrow> json_load \<Rightarrow> pyexc + (pyrow list option \<times> st_message list)"
where
  "main float_of_str file =
     (case load_data file of
        (data, shown) \<Rightarrow>
          if data = PNone then Inr (None, shown)
          else (case process_data float_of_str data of
                  Inl e \<Rightarrow> Inl e
                | Inr (processed_data, shown') \<Rightarrow> Inr (Some processed_data, shown @ shown')))"

section \<open>The data frame and \<open>plot_data\<close>\<close>

text \<open>
  \<open>pd.DataFrame(processed_data)\<close>, for the frames this development aggregates: \<open>model\<close>
  and \<open>user\<close> are str columns, \<open>total_cost\<close> is a numeric column (read as float) and
  \<open>total_tokens\<close> an int column. Any other list gives columns of dtype \<open>object\<close>, whose
  aggregation by pandas is not modelled: \<open>DataFrame\<close> is \<open>None\<close> there.
\<close>

type_synonym frame_row = "(string, real, int) row"

fun typed_row :: "pyrow \<Rightarrow> frame_row option" where
  "typed_row r =
     (case (model r, user r, total_tokens r) of
        (PStr m, PStr u, PInt t) \<Rightarrow>
          (case total_cost r of
             PInt c \<Rightarrow> Some \<lparr>model = m, total_cost = real_of_int c, user = u, total_tokens = t\<rparr>
           | PFloat c \<Rightarrow> Some \<lparr>model = m, total_cost = c, user = u, total_tokens = t\<rparr>
           | _ \<Rightarrow> None)
      | _ \<Rightarrow> None)"

definition DataFrame :: "pyrow list \<Rightarrow> frame_row list option" where
  "DataFrame processed_data = those (map typed_row processed_data)"

text \<open>
  \<open>df.groupby(key)[col].sum().reset_index()\<close>: one row per distinct key, in ascending
  order of the key (\<open>groupby\<close> sorts its keys unless told otherwise; strs compare as the
  lists of their characters), holding the sum of the column over the rows of that key.
\<close>

definition groupby_sum ::
  "('r \<Rightarrow> string) \<Rightarrow> ('r \<Rightarrow> 'v::monoid_add) \<Rightarrow> 'r list \<Rightarrow> (string \<times> 'v) list"
where
  "groupby_sum key col df =
     map (\<lambda>k. (k, sum_list (map col (filter (\<lambda>r. key r = k) df)))) (sort (remdups (map key df)))"

text \<open>
  \<open>df.sort_values(by=col, ascending=False)\<close>, called without \<open>kind\<close>: the rows come out in
  descending order of the column. The default \<open>kind\<close> is quicksort, which is not stable, so
  the call fixes no order among rows of equal value. That order is the parameter \<open>ties\<close>,
  any ranking of the rows: rows of equal value come out in ascending rank, and rows of
  equal value and rank in the order of the frame. pandas reverses the column, takes the
  ascending argsort and reverses the outcome; the argsort is the insertion sort \<open>sort_key\<close>
  on the rows put in order of rank. With a constant \<open>ties\<close> it is the call with a stable
  \<open>kind\<close> (lemma \<open>sort_values_desc_stable\<close>). Whatever \<open>ties\<close> is, the outcome holds the rows
  of the frame in descending order of the column (lemmas \<open>set_sort_values_desc\<close>,
  \<open>length_sort_values_desc\<close>, \<open>sorted_sort_values_desc\<close>), and every such arrangement of a
  frame of distinct rows is the outcome for some \<open>ties\<close> (lemma
  \<open>sort_values_desc_any_order\<close>): what is proved for every \<open>ties\<close> holds whatever the
  library's sort does with equal values.
\<close>

definition sort_values_desc :: "('r \<Rightarrow> nat) \<Rightarrow> ('r \<Rightarrow> 'v::linorder) \<Rightarrow> 'r list \<Rightarrow> 'r list" where
  "sort_values_desc ties col df = rev (sort_key col (rev (sort_key ties df)))"

text \<open>Lines 102 to 107 and 119 to 124: the two tables by model, \<open>head(10)\<close> of the sorted
  groups.\<close>

definition data_models_tokens ::
  "(string \<times> int \<Rightarrow> nat) \<Rightarrow> frame_row list \<Rightarrow> (string \<times> int) list"
where
  "data_models_tokens ties df =
     take 10 (sort_values_desc ties snd (groupby_sum model total_tokens df))"

definition data_models_cost ::
  "(string \<times> real \<Rightarrow> nat) \<Rightarrow> frame_row list \<Rightarrow> (string \<times> real) list"
where
  "data_models_cost ties df =
     take 10 (sort_values_desc ties snd (groupby_sum model total_cost df))"

text \<open>Lines 137 to 158: the table by user, both columns summed, sorted by cost, with the
  row of totals appended.\<close>

record user_row =
  u_user :: string
  u_total_cost :: real
  u_total_tokens :: int

definition groupby_user :: "frame_row list \<Rightarrow> user_row list" where
  "groupby_user df =
     map (\<lambda>k. \<lparr>u_user = k,
                u_total_cost = sum_list (map total_cost (filter (\<lambda>r. user r = k) df)),
                u_total_tokens = sum_list (map total_tokens (filter (\<lambda>r. user r = k) df))\<rparr>)
       (sort (remdups (map user df)))"

definition data_users :: "(user_row \<Rightarrow> nat) \<Rightarrow> frame_row list \<Rightarrow> user_row list" where
  "data_users ties df =
     (let sorted_users = sort_values_desc ties u_total_cost (groupby_user df);
          total_cost_sum = sum_list (map u_total_cost sorted_users);
          total_tokens_sum = sum_list (map u_total_tokens sorted_users);
          total_row = \<lparr>u_user = ''Total'', u_total_cost = total_cost_sum,
                       u_total_tokens = total_tokens_sum\<rparr>
      in sorted_users @ [total_row])"

text \<open>The three tables that \<open>plot_data\<close> charts and displays; each of the three calls of
  \<open>sort_values\<close> has its own order of ties.\<close>

definition plot_data ::
  "(string \<times> int \<Rightarrow> nat) \<Rightarrow> (string \<times> real \<Rightarrow> nat) \<Rightarrow> (user_row \<Rightarrow> nat) \<Rightarrow> frame_row list \<Rightarrow>
     (string \<times> int) list \<times> (string \<times> real) list \<times> user_row list"
where
  "plot_data ties_tokens ties_cost ties_users df =
     (data_models_tokens ties_tokens df, data_models_cost ties_cost df, data_users ties_users df)"

section \<open>The specification's reading of a usage document\<close>

text \<open>
  The definitions of this section follow the specification, not the code. A usage entry is
  the first element of a user's sequence, a mapping. It is well formed when the four
  fields are present, the two token counts are integers and the cost is a number or a str
  that \<open>float\<close> accepts; \<open>normalized\<close> is then the record the specification asks for, with
  the cost as a float and the token counts added.
\<close>

definition first_entry :: "pyval \<Rightarrow> (string \<times> pyval) list option" where
  "first_entry v = (case v of PList (PDict e # others) \<Rightarrow> Some e | _ \<Rightarrow> None)"

definition float_coercion :: "(string \<Rightarrow> real option) \<Rightarrow> pyval \<Rightarrow> real option" where
  "float_coercion float_of_str c =
     (case c of
        PStr s \<Rightarrow> float_of_str s
      | PInt i \<Rightarrow> Some (real_of_int i)
      | PFloat x \<Rightarrow> Some x
      | _ \<Rightarrow> None)"

type_synonym normalized_record = "(pyval, real, int) row"

definition normalized ::
  "(string \<Rightarrow> real option) \<Rightarrow> string \<Rightarrow> (string \<times> pyval) list \<Rightarrow> normalized_record option"
where
  "normalized float_of_str k e =
     (case (map_of e ''model'', map_of e ''total_cost'',
            map_of e ''input_tokens'', map_of e ''output_tokens'') of
        (Some m, Some c, Some (PInt i), Some (PInt j)) \<Rightarrow>
          (case float_coercion float_of_str c of
             Some x \<Rightarrow> Some \<lparr>model = m, total_cost = x, user = PStr k, total_tokens = i + j\<rparr>
           | None \<Rightarrow> None)
      | _ \<Rightarrow> None)"

definition normalize_user ::
  "(string \<Rightarrow> real option) \<Rightarrow> string \<times> pyval \<Rightarrow> normalized_record option"
where
  "normalize_user float_of_str kv =
     (case first_entry (snd kv) of None \<Rightarrow> None | Some e \<Rightarrow> normalized float_of_str (fst kv) e)"

text \<open>What an element of \<open>processed_data\<close> is as a normalized record: its cost read as a
  float, its token count as an integer.\<close>

definition record_view :: "pyrow \<Rightarrow> normalized_record option" where
  "record_view r =
     (case (float_coercion (\<lambda>s. None) (total_cost r), total_tokens r) of
        (Some x, PInt t) \<Rightarrow> Some \<lparr>model = model r, total_cost = x, user = user r, total_tokens = t\<rparr>
      | _ \<Rightarrow> None)"

text \<open>The users the specification drops: a required field is missing, or the cost is a
  str that \<open>float\<close> rejects. \<open>describes\<close> relates such a user to the error reported.\<close>

definition required_fields :: "string list" where
  "required_fields = [''model'', ''total_cost'', ''input_tokens'', ''output_tokens'']"

definition missing_field :: "(string \<times> pyval) list \<Rightarrow> bool" where
  "missing_field e = list_ex (\<lambda>f. map_of e f = None) required_fields"

definition bad_cost :: "(string \<Rightarrow> real option) \<Rightarrow> (string \<times> pyval) list \<Rightarrow> bool" where
  "bad_cost float_of_str e =
     (case map_of e ''total_cost'' of Some (PStr s) \<Rightarrow> float_of_str s = None | _ \<Rightarrow> False)"

definition dropped :: "(string \<Rightarrow> real option) \<Rightarrow> string \<times> pyval \<Rightarrow> bool" where
  "dropped float_of_str kv =
     (case first_entry (snd kv) of
        None \<Rightarrow> False
      | Some e \<Rightarrow> missing_field e \<or> bad_cost float_of_str e)"

definition describes :: "(string \<Rightarrow> real option) \<Rightarrow> string \<times> pyval \<Rightarrow> st_message \<Rightarrow> bool" where
  "describes float_of_str kv m =
     (case first_entry (snd kv) of
        None \<Rightarrow> False
      | Some e \<Rightarrow>
          (bad_cost float_of_str e \<and> m = Invalid_cost_or_token_value (PDict e))
          \<or> list_ex (\<lambda>f. map_of e f = None \<and> m = Missing_key_in_record (PStr f) (PDict e))
               required_fields)"

text \<open>\<open>isinstance(v, str)\<close>.\<close>

fun is_str :: "pyval \<Rightarrow> bool" where
  "is_str (PStr s) = True"
| "is_str v = False"

text \<open>
  The groups of a frame as the specification describes them: each distinct key with the sum
  of the column over its rows. The order of first encounter is the position of the first
  row of a key in the frame.
\<close>

definition group_sums :: "('r \<Rightarrow> string) \<Rightarrow> ('r \<Rightarrow> 'v::monoid_add) \<Rightarrow> 'r list \<Rightarrow> (string \<times> 'v) set" where
  "group_sums key col df =
     (\<lambda>k. (k, sum_list (map col (filter (\<lambda>r. key r = k) df)))) ` key ` set df"

definition position :: "'a \<Rightarrow> 'a list \<Rightarrow> nat" where
  "position x xs = length (takeWhile (\<lambda>y. y \<noteq> x) xs)"

definition ties_in_first_seen_order :: "string list \<Rightarrow> (string \<times> 'v) list \<Rightarrow> bool" where
  "ties_in_first_seen_order seen tbl =
     sorted_wrt (\<lambda>a b. snd a = snd b \<longrightarrow> position (fst a) seen < position (fst b) seen) tbl"

section \<open>A parser and documents for the examples\<close>

text \<open>
  The examples need one concrete \<open>float_of_str\<close>. \<open>decimal_literal\<close> reads digits with at
  most one point, without sign or exponent, to the value \<open>float\<close> gives them; it rejects
  every other str, of which \<open>float\<close> accepts some.
\<close>

definition digit_value :: "char \<Rightarrow> nat option" where
  "digit_value c = (if CHR ''0'' \<le> c \<and> c \<le> CHR ''9'' then Some (of_char c - 48) else None)"

fun digits_value :: "nat \<Rightarrow> string \<Rightarrow> nat option" where
  "digits_value acc [] = Some acc"
| "digits_value acc (c # cs) =
     (case digit_value c of None \<Rightarrow> None | Some d \<Rightarrow> digits_value (10 * acc + d) cs)"

definition decimal_literal :: "string \<Rightarrow> real option" where
  "decimal_literal s =
     (let whole = takeWhile (\<lambda>c. c \<noteq> CHR ''.'') s; frac = drop (length whole + 1) s
      in if whole = [] \<and> frac = [] then None
         else (case (digits_value 0 whole, digits_value 0 frac) of
                 (Some w, Some f) \<Rightarrow> Some (real w + real f / 10 ^ length frac)
               | _ \<Rightarrow> None))"

definition usage_entry :: "string \<Rightarrow> pyval \<Rightarrow> pyval \<Rightarrow> pyval \<Rightarrow> (string \<times> pyval) list" where
  "usage_entry m c i j =
     [(''model'', PStr m), (''total_cost'', c), (''input_tokens'', i), (''output_tokens'', j)]"

text \<open>The document of the specification's end-to-end example.\<close>

definition spec_example :: pyval where
  "spec_example = PDict
     [(''a@x.com'', PList [PDict (usage_entry ''gpt-4'' (PStr ''1.50'') (PInt 100) (PInt 50))]),
      (''b@x.com'', PList [PDict (usage_entry ''gpt-4'' (PFloat 2) (PInt 10) (PInt 10))])]"

text \<open>Two well-formed users; a second entry of a user is never read.\<close>

definition well_formed_users :: "(string \<times> pyval) list" where
  "well_formed_users =
     [(''ann'', PList [PDict (usage_entry ''gpt-4'' (PStr ''0.25'') (PInt 3) (PInt 4))]),
      (''bob'', PList [PDict (usage_entry ''llama'' (PInt 2) (PInt 5) (PInt 6)), PNone])]"

text \<open>A well-formed user, one whose entry lacks \<open>input_tokens\<close> and one whose cost is not
  a number.\<close>

definition no_input_tokens :: "(string \<times> pyval) list" where
  "no_input_tokens = [(''model'', PStr ''llama''), (''total_cost'', PFloat 1), (''output_tokens'', PInt 1)]"

definition mixed_users :: "(string \<times> pyval) list" where
  "mixed_users =
     [(''ann'', PList [PDict (usage_entry ''gpt-4'' (PStr ''0.25'') (PInt 3) (PInt 4))]),
      (''bob'', PList [PDict no_input_tokens]),
      (''cy'', PList [PDict (usage_entry ''gpt-4'' (PStr ''n/a'') (PInt 1) (PInt 1))])]"

text \<open>A user whose cost is \<open>null\<close>.\<close>

definition null_cost_users :: "(string \<times> pyval) list" where
  "null_cost_users = [(''dee'', PList [PDict (usage_entry ''gpt-4'' PNone (PInt 1) (PInt 2))])]"

text \<open>Frames: two models with equal sums, the second of the frame first in name order;
  eleven models, the two of least sum equal; a user with two rows. \<open>rank_first m\<close> is the order
  of ties that ranks the model \<open>m\<close> before all others.\<close>

definition tie_frame :: "frame_row list" where
  "tie_frame =
     [\<lparr>model = ''llama'', total_cost = 1, user = ''a@x.com'', total_tokens = 5\<rparr>,
      \<lparr>model = ''gpt-4'', total_cost = 1, user = ''b@x.com'', total_tokens = 5\<rparr>]"

definition eleven_models :: "frame_row list" where
  "eleven_models =
     map (\<lambda>(m, t). \<lparr>model = m, total_cost = real_of_int t, user = ''u@x.com'', total_tokens = t\<rparr>)
       [(''a'', 11), (''b'', 3), (''c'', 7), (''d'', 2), (''e'', 9), (''f'', 5),
        (''g'', 2), (''h'', 10), (''i'', 4), (''j'', 8), (''k'', 6)]"

definition rank_first :: "string \<Rightarrow> string \<times> 'v \<Rightarrow> nat" where
  "rank_first m r = (if fst r = m then 0 else 1)"

definition users_frame :: "frame_row list" where
  "users_frame =
     [\<lparr>model = ''gpt-4'', total_cost = 3 / 2, user = ''a@x.com'', total_tokens = 150\<rparr>,
      \<lparr>model = ''llama'', total_cost = 3, user = ''b@x.com'', total_tokens = 20\<rparr>,
      \<lparr>model = ''llama'', total_cost = 1, user = ''a@x.com'', total_tokens = 5\<rparr>]"

section \<open>The loop on a mapping\<close>

text \<open>The per-user outcomes of the loop on a mapping whose users all have a first entry:
  the rows appended and the messages shown, in order.\<close>

fun outcomes ::
  "(string \<Rightarrow> real option) \<Rightarrow> (string \<times> pyval) list \<Rightarrow> pyrow list \<times> st_message list"
where
  "outcomes float_of_str [] = ([], [])"
| "outcomes float_of_str (kv # kvs) =
     (case getitem (snd kv) (PInt 0) of
        Inl e \<Rightarrow> outcomes float_of_str kvs
      | Inr r \<Rightarrow>
          (case make_row float_of_str (PStr (fst kv)) r of
             Inr x \<Rightarrow> (x # fst (outcomes float_of_str kvs), snd (outcomes float_of_str kvs))
           | Inl e \<Rightarrow>
               (fst (outcomes float_of_str kvs),
                message_of e r # snd (outcomes float_of_str kvs))))"

section \<open>Failures that leave \<open>process_data\<close>\<close>

text \<open>
  Claim C1. A failure while one user's entry is processed must be caught, reported and
  skipped. On the document \<open>{"a@x.com": []}\<close> line 56 raises \<open>IndexError\<close> before \<open>record\<close>
  is assigned; the handler of line 80 catches it and raises \<open>UnboundLocalError\<close> while
  formatting its message, and that exception leaves \<open>process_data\<close>.
\<close>

theorem process_data_empty_entries_escapes:
  "process_data float_of_str (PDict [(''a@x.com'', PList [])]) = Inl UnboundLocalError"
  by (simp add: process_data_def try_body_def handler_def seq_getitem_def)

text \<open>
  Claim C4. A top-level value that is no mapping must end in a reported failure, never in
  an exception. The array \<open>[1, 2, 3]\<close> and the str \<open>"abc"\<close> fail at line 56 in the first
  iteration and leave through the handler as above; the number \<open>5\<close> is not iterable and
  raises \<open>TypeError\<close> at line 53, outside the \<open>try\<close>. Only text that is not JSON is
  reported, by \<open>load_data\<close>.
\<close>

theorem main_not_a_mapping_escapes:
  "main float_of_str (Loaded (PList [PInt 1, PInt 2, PInt 3])) = Inl UnboundLocalError
   \<and> main float_of_str (Loaded (PStr ''abc'')) = Inl UnboundLocalError
   \<and> main float_of_str (Loaded (PInt 5)) = Inl TypeError
   \<and> main float_of_str JSONDecodeError = Inr (None, [Invalid_JSON_file])"
  by (simp add: main_def load_data_def process_data_def try_body_def handler_def seq_getitem_def)

text \<open>
  Claim C5. A token count that is not a number must drop the record with the error of
  line 78, the one a cost that is not a number gets. A str added to an int raises
  \<open>TypeError\<close>, which the clause of line 80 reports instead; two strs are concatenated
  and the record is kept.
\<close>

theorem process_data_non_numeric_tokens:
  "process_data float_of_str
     (PDict [(''u@x.com'', PList [PDict (usage_entry ''gpt-4'' (PFloat 1) (PStr ''abc'') (PInt 5))])])
   = Inr ([], [An_error_occurred (PDict (usage_entry ''gpt-4'' (PFloat 1) (PStr ''abc'') (PInt 5)))
                 TypeError,
               No_valid_data_found])
   \<and> process_data float_of_str
     (PDict [(''u@x.com'', PList [PDict (usage_entry ''gpt-4'' (PFloat 1) (PStr ''10'') (PStr ''5''))])])
   = Inr ([\<lparr>model = PStr ''gpt-4'', total_cost = PFloat 1, user = PStr ''u@x.com'',
            total_tokens = PStr ''105''\<rparr>], [])"
  by (simp add: process_data_def try_body_def handler_def message_of_def seq_getitem_def
      make_row_def ensure_float_def add_def usage_entry_def)

section \<open>\<open>process_data\<close> on a mapping of users\<close>

lemma getitem_dict_distinct:
  "distinct (map fst kvs) \<Longrightarrow> (k, v) \<in> set kvs \<Longrightarrow> getitem (PDict kvs) (PStr k) = Inr v"
  by simp

lemma loop_outcomes:
  assumes d: "distinct (map fst kvs)"
  shows "set us \<subseteq> set kvs \<Longrightarrow> list_all (\<lambda>kv. \<exists>r. getitem (snd kv) (PInt 0) = Inr r) us \<Longrightarrow>
    \<exists>rcd'. loop pf (PDict kvs) (map (\<lambda>kv. PStr (fst kv)) us) (rcd, p, s)
       = Inr (rcd', p @ fst (outcomes pf us), s @ snd (outcomes pf us))"
proof (induction us arbitrary: rcd p s)
  case Nil
  then show ?case by simp
next
  case (Cons kv us)
  obtain k v where kv: "kv = (k, v)" by (cases kv)
  from Cons.prems obtain r where r: "getitem v (PInt 0) = Inr r" by (auto simp: kv)
  have g: "getitem (PDict kvs) (PStr k) = Inr v"
    using getitem_dict_distinct[OF d, of k v] Cons.prems(1) by (simp add: kv)
  have tb: "try_body pf (PDict kvs) (PStr k) rcd = (Some r, make_row pf (PStr k) r)"
    by (simp add: try_body_def g r del: getitem.simps)
  have sub: "set us \<subseteq> set kvs"
    and all: "list_all (\<lambda>kv. \<exists>r. getitem (snd kv) (PInt 0) = Inr r) us"
    using Cons.prems by auto
  show ?case
  proof (cases "make_row pf (PStr k) r")
    case (Inl e)
    from Cons.IH[OF sub all, of "Some r" p "s @ [message_of e r]"]
    show ?thesis by (simp add: kv tb Inl r handler_def)
  next
    case (Inr x)
    from Cons.IH[OF sub all, of "Some r" "p @ [x]" s]
    show ?thesis by (simp add: kv tb Inr r)
  qed
qed

lemma process_data_outcomes:
  assumes "distinct (map fst kvs)"
    and "list_all (\<lambda>kv. \<exists>r. getitem (snd kv) (PInt 0) = Inr r) kvs"
  shows "process_data pf (PDict kvs) =
     Inr (fst (outcomes pf kvs),
          snd (outcomes pf kvs) @ (if fst (outcomes pf kvs) = [] then [No_valid_data_found] else []))"
proof -
  from loop_outcomes[OF assms(1) subset_refl assms(2), of pf None "[]" "[]"]
  obtain rcd' where "loop pf (PDict kvs) (map (\<lambda>kv. PStr (fst kv)) kvs) (None, [], [])
       = Inr (rcd', fst (outcomes pf kvs), snd (outcomes pf kvs))" by auto
  then show ?thesis by (simp add: process_data_def split: prod.splits)
qed

lemma make_row_normalized:
  assumes "normalized pf k e = Some n"
  shows "\<exists>x. make_row pf (PStr k) (PDict e) = Inr x \<and> record_view x = Some n"
proof -
  from assms obtain m c i j y where
    l: "map_of e ''model'' = Some m" "map_of e ''total_cost'' = Some c"
       "map_of e ''input_tokens'' = Some (PInt i)" "map_of e ''output_tokens'' = Some (PInt j)"
    and y: "float_coercion pf c = Some y"
    and n: "n = \<lparr>model = m, total_cost = y, user = PStr k, total_tokens = i + j\<rparr>"
    by (auto simp: normalized_def split: option.splits pyval.splits)
  from y obtain c' where c': "ensure_float pf c = Inr c'" "float_coercion (\<lambda>s. None) c' = Some y"
    by (cases c) (auto simp: ensure_float_def float_coercion_def)
  have "make_row pf (PStr k) (PDict e) =
      Inr \<lparr>model = m, total_cost = c', user = PStr k, total_tokens = PInt (i + j)\<rparr>"
    by (simp add: make_row_def l c' add_def)
  moreover have "record_view \<lparr>model = m, total_cost = c', user = PStr k,
      total_tokens = PInt (i + j)\<rparr> = Some n"
    by (simp add: record_view_def c' n)
  ultimately show ?thesis by blast
qed

lemma make_row_dropped:
  assumes "missing_field e \<or> bad_cost pf e"
  shows "\<exists>exc. make_row pf (PStr k) (PDict e) = Inl exc \<and>
     ((bad_cost pf e \<and> message_of exc (PDict e) = Invalid_cost_or_token_value (PDict e))
      \<or> list_ex (\<lambda>f. map_of e f = None \<and>
            message_of exc (PDict e) = Missing_key_in_record (PStr f) (PDict e)) required_fields)"
  using assms
  by (auto simp: missing_field_def bad_cost_def required_fields_def make_row_def ensure_float_def
      message_of_def split: option.splits pyval.splits sum.splits)

lemma normalized_not_dropped:
  "normalize_user pf kv \<noteq> None \<Longrightarrow> \<not> dropped pf kv"
  by (auto simp: normalize_user_def dropped_def normalized_def missing_field_def bad_cost_def
      required_fields_def float_coercion_def split: option.splits pyval.splits)

lemma first_entry_getitem:
  "first_entry v = Some e \<Longrightarrow> getitem v (PInt 0) = Inr (PDict e)"
  by (auto simp: first_entry_def seq_getitem_def split: pyval.splits list.splits)

lemma has_first_entry:
  "normalize_user pf kv \<noteq> None \<or> dropped pf kv \<Longrightarrow> \<exists>r. getitem (snd kv) (PInt 0) = Inr r"
  by (auto simp: normalize_user_def dropped_def dest: first_entry_getitem split: option.splits)

lemma outcomes_well_formed:
  "list_all (\<lambda>kv. normalize_user pf kv \<noteq> None) kvs \<Longrightarrow>
   snd (outcomes pf kvs) = [] \<and>
   map record_view (fst (outcomes pf kvs)) = map (normalize_user pf) kvs"
proof (induction kvs)
  case Nil
  then show ?case by simp
next
  case (Cons kv kvs)
  from Cons.prems obtain e n where e: "first_entry (snd kv) = Some e"
    and n: "normalized pf (fst kv) e = Some n"
    by (auto simp: normalize_user_def split: option.splits)
  from make_row_normalized[OF n] obtain x
    where x: "make_row pf (PStr (fst kv)) (PDict e) = Inr x" "record_view x = Some n" by blast
  from Cons show ?case
    by (simp add: first_entry_getitem[OF e] x normalize_user_def e n)
qed

lemma outcomes_mixed:
  "list_all (\<lambda>kv. normalize_user pf kv \<noteq> None \<or> dropped pf kv) kvs \<Longrightarrow>
   map record_view (fst (outcomes pf kvs)) = filter (\<lambda>n. n \<noteq> None) (map (normalize_user pf) kvs)
   \<and> list_all2 (describes pf) (filter (dropped pf) kvs) (snd (outcomes pf kvs))"
proof (induction kvs)
  case Nil
  then show ?case by simp
next
  case (Cons kv kvs)
  then have IH: "map record_view (fst (outcomes pf kvs)) =
        filter (\<lambda>n. n \<noteq> None) (map (normalize_user pf) kvs)"
      "list_all2 (describes pf) (filter (dropped pf) kvs) (snd (outcomes pf kvs))"
    by simp_all
  show ?case
  proof (cases "normalize_user pf kv")
    case (Some n)
    then obtain e where e: "first_entry (snd kv) = Some e"
      and n: "normalized pf (fst kv) e = Some n"
      by (auto simp: normalize_user_def split: option.splits)
    from make_row_normalized[OF n] obtain x
      where x: "make_row pf (PStr (fst kv)) (PDict e) = Inr x" "record_view x = Some n" by blast
    have nd: "\<not> dropped pf kv" using normalized_not_dropped[of pf kv] Some by simp
    show ?thesis using IH by (simp add: first_entry_getitem[OF e] x Some nd)
  next
    case None
    with Cons.prems have dr: "dropped pf kv" by simp
    then obtain e where e: "first_entry (snd kv) = Some e"
      and bad: "missing_field e \<or> bad_cost pf e"
      by (auto simp: dropped_def split: option.splits)
    from make_row_dropped[OF bad, of "fst kv"] obtain exc
      where exc: "make_row pf (PStr (fst kv)) (PDict e) = Inl exc"
        and d: "describes pf kv (message_of exc (PDict e))"
      by (auto simp: describes_def e)
    show ?thesis using IH by (simp add: first_entry_getitem[OF e] exc None dr d)
  qed
qed

text \<open>
  Claim C2. In a mapping with distinct keys where every user's first entry is well formed
  (\<open>normalize_user\<close> yields a record: the four fields are present, the token counts are
  integers, the cost is a number or a str that \<open>float\<close> accepts), \<open>process_data\<close> returns
  one row per user, in the order of the keys. Read as a normalized record, the row of a
  user is the record of the specification: its \<open>total_tokens\<close> is the sum of the two
  counts and its \<open>total_cost\<close> the float of the entry's cost. No error is shown.
\<close>

theorem process_data_well_formed:
  assumes "distinct (map fst kvs)"
    and "\<forall>kv\<in>set kvs. normalize_user float_of_str kv \<noteq> None"
  shows "\<exists>rows. process_data float_of_str (PDict kvs) =
              Inr (rows, if kvs = [] then [No_valid_data_found] else [])
           \<and> length rows = length kvs
           \<and> map record_view rows = map (normalize_user float_of_str) kvs"
proof -
  let ?rows = "fst (outcomes float_of_str kvs)"
  have wf: "list_all (\<lambda>kv. normalize_user float_of_str kv \<noteq> None) kvs"
    using assms(2) by (simp add: list_all_iff)
  then have fe: "list_all (\<lambda>kv. \<exists>r. getitem (snd kv) (PInt 0) = Inr r) kvs"
    using has_first_entry[of float_of_str] by (auto simp: list_all_iff)
  from outcomes_well_formed[OF wf]
  have o: "snd (outcomes float_of_str kvs) = []"
    "map record_view ?rows = map (normalize_user float_of_str) kvs" by simp_all
  from o(2) have len: "length ?rows = length kvs" by (metis length_map)
  then have emp: "(?rows = []) = (kvs = [])" by (metis length_0_conv)
  from process_data_outcomes[OF assms(1) fe, of float_of_str]
  have "process_data float_of_str (PDict kvs) =
      Inr (?rows, if kvs = [] then [No_valid_data_found] else [])"
    by (simp add: o emp)
  with o(2) len show ?thesis by blast
qed

theorem process_data_well_formed_witness:
  "distinct (map fst well_formed_users)
   \<and> list_all (\<lambda>kv. normalize_user decimal_literal kv \<noteq> None) well_formed_users
   \<and> (\<exists>rows. process_data decimal_literal (PDict well_formed_users) = Inr (rows, [])
        \<and> length rows = 2
        \<and> map record_view rows =
            [Some \<lparr>model = PStr ''gpt-4'', total_cost = 1 / 4, user = PStr ''ann'', total_tokens = 7\<rparr>,
             Some \<lparr>model = PStr ''llama'', total_cost = 2, user = PStr ''bob'', total_tokens = 11\<rparr>])"
proof -
  have d: "distinct (map fst well_formed_users)"
    by (simp add: well_formed_users_def)
  have n: "map (normalize_user decimal_literal) well_formed_users =
      [Some \<lparr>model = PStr ''gpt-4'', total_cost = 1 / 4, user = PStr ''ann'', total_tokens = 7\<rparr>,
       Some \<lparr>model = PStr ''llama'', total_cost = 2, user = PStr ''bob'', total_tokens = 11\<rparr>]"
    by (simp add: well_formed_users_def usage_entry_def normalize_user_def first_entry_def
        normalized_def float_coercion_def decimal_literal_def digit_value_def)
  have w: "\<forall>kv\<in>set well_formed_users. normalize_user decimal_literal kv \<noteq> None"
  proof
    fix kv assume "kv \<in> set well_formed_users"
    then have "normalize_user decimal_literal kv \<in> set (map (normalize_user decimal_literal) well_formed_users)"
      by simp
    then show "normalize_user decimal_literal kv \<noteq> None" unfolding n by auto
  qed
  have l: "length well_formed_users = 2" "well_formed_users \<noteq> []"
    by (simp_all add: well_formed_users_def)
  from process_data_well_formed[OF d w] show ?thesis
    using d w by (simp add: n l list_all_iff)
qed

text \<open>
  Claim C3. In a mapping with distinct keys where every user's first entry is either well
  formed or to be dropped (a required field is missing, or the cost is a str that \<open>float\<close>
  rejects), \<open>process_data\<close> returns the rows of exactly the well-formed users, each the
  record of the specification, and shows one error per dropped user, in order: the error
  of line 78 with the entry, or the error of line 75 with a missing field and the entry.
  The list of errors is empty only when no user is dropped.
\<close>

theorem process_data_drops_bad_users:
  assumes "distinct (map fst kvs)"
    and "\<forall>kv\<in>set kvs. normalize_user float_of_str kv \<noteq> None \<or> dropped float_of_str kv"
  shows "\<exists>rows errors. process_data float_of_str (PDict kvs) =
              Inr (rows, errors @ (if rows = [] then [No_valid_data_found] else []))
           \<and> map record_view rows =
               filter (\<lambda>n. n \<noteq> None) (map (normalize_user float_of_str) kvs)
           \<and> list_all2 (describes float_of_str) (filter (dropped float_of_str) kvs) errors
           \<and> (errors = []) = (filter (dropped float_of_str) kvs = [])"
proof -
  let ?rows = "fst (outcomes float_of_str kvs)" and ?errors = "snd (outcomes float_of_str kvs)"
  have mx: "list_all (\<lambda>kv. normalize_user float_of_str kv \<noteq> None \<or> dropped float_of_str kv) kvs"
    using assms(2) by (simp add: list_all_iff)
  then have fe: "list_all (\<lambda>kv. \<exists>r. getitem (snd kv) (PInt 0) = Inr r) kvs"
    using has_first_entry[of float_of_str] by (auto simp: list_all_iff)
  from outcomes_mixed[OF mx]
  have o: "map record_view ?rows = filter (\<lambda>n. n \<noteq> None) (map (normalize_user float_of_str) kvs)"
    "list_all2 (describes float_of_str) (filter (dropped float_of_str) kvs) ?errors" by simp_all
  from o(2) have "length (filter (dropped float_of_str) kvs) = length ?errors"
    by (rule list_all2_lengthD)
  then have emp: "(?errors = []) = (filter (dropped float_of_str) kvs = [])"
    by (metis length_0_conv)
  from process_data_outcomes[OF assms(1) fe, of float_of_str] o emp show ?thesis by blast
qed

theorem process_data_drops_bad_users_witness:
  "distinct (map fst mixed_users)
   \<and> list_all (\<lambda>kv. normalize_user decimal_literal kv \<noteq> None \<or> dropped decimal_literal kv)
       mixed_users
   \<and> filter (dropped decimal_literal) mixed_users =
       [(''bob'', PList [PDict no_input_tokens]),
        (''cy'', PList [PDict (usage_entry ''gpt-4'' (PStr ''n/a'') (PInt 1) (PInt 1))])]
   \<and> (\<exists>rows errors. process_data decimal_literal (PDict mixed_users) = Inr (rows, errors)
        \<and> map record_view rows =
            [Some \<lparr>model = PStr ''gpt-4'', total_cost = 1 / 4, user = PStr ''ann'', total_tokens = 7\<rparr>]
        \<and> errors =
            [Missing_key_in_record (PStr ''input_tokens'') (PDict no_input_tokens),
             Invalid_cost_or_token_value
               (PDict (usage_entry ''gpt-4'' (PStr ''n/a'') (PInt 1) (PInt 1)))])"
proof -
  have d: "distinct (map fst mixed_users)"
    by (simp add: mixed_users_def)
  have n: "map (normalize_user decimal_literal) mixed_users =
      [Some \<lparr>model = PStr ''gpt-4'', total_cost = 1 / 4, user = PStr ''ann'', total_tokens = 7\<rparr>,
       None, None]"
    by (simp add: mixed_users_def no_input_tokens_def usage_entry_def normalize_user_def
        first_entry_def normalized_def float_coercion_def decimal_literal_def digit_value_def)
  have f: "filter (dropped decimal_literal) mixed_users =
       [(''bob'', PList [PDict no_input_tokens]),
        (''cy'', PList [PDict (usage_entry ''gpt-4'' (PStr ''n/a'') (PInt 1) (PInt 1))])]"
    by (simp add: mixed_users_def no_input_tokens_def usage_entry_def dropped_def
        first_entry_def missing_field_def bad_cost_def required_fields_def
        decimal_literal_def digit_value_def)
  have w: "list_all (\<lambda>kv. normalize_user decimal_literal kv \<noteq> None \<or> dropped decimal_literal kv)
      mixed_users"
    by (simp add: mixed_users_def no_input_tokens_def usage_entry_def normalize_user_def
        first_entry_def normalized_def float_coercion_def dropped_def
        missing_field_def bad_cost_def required_fields_def decimal_literal_def digit_value_def)
  then have w': "\<forall>kv\<in>set mixed_users.
      normalize_user decimal_literal kv \<noteq> None \<or> dropped decimal_literal kv"
    by (simp add: list_all_iff)
  have p: "process_data decimal_literal (PDict mixed_users) =
      Inr ([\<lparr>model = PStr ''gpt-4'', total_cost = PFloat (1 / 4), user = PStr ''ann'',
              total_tokens = PInt 7\<rparr>],
           [Missing_key_in_record (PStr ''input_tokens'') (PDict no_input_tokens),
            Invalid_cost_or_token_value
              (PDict (usage_entry ''gpt-4'' (PStr ''n/a'') (PInt 1) (PInt 1)))])"
    by (simp add: process_data_def mixed_users_def no_input_tokens_def usage_entry_def
        try_body_def handler_def message_of_def seq_getitem_def make_row_def ensure_float_def
        add_def decimal_literal_def digit_value_def)
  from process_data_drops_bad_users[OF d w'] show ?thesis
    using d w f by (simp add: p n)
qed

text \<open>
  Claim C10. Only a str cost is converted. When a user's first entry has the four fields,
  a cost that is not a str (\<open>null\<close> or a nested object, say) and token counts that can be
  added, the iteration for that user shows no message and appends the row that carries
  the cost as it is; the loop goes on with the next user.
\<close>

theorem loop_keeps_cost_that_is_not_str:
  assumes "distinct (map fst kvs)" and "(k, PList (PDict e # others)) \<in> set kvs"
    and "map_of e ''model'' = Some m" and "map_of e ''total_cost'' = Some c"
    and "\<not> is_str c"
    and "map_of e ''input_tokens'' = Some i" and "map_of e ''output_tokens'' = Some j"
    and "add i j = Inr t"
  shows "loop float_of_str (PDict kvs) (PStr k # rest) (rcd, processed_data, shown) =
         loop float_of_str (PDict kvs) rest
           (Some (PDict e),
            processed_data @ [\<lparr>model = m, total_cost = c, user = PStr k, total_tokens = t\<rparr>],
            shown)"
proof -
  have g: "getitem (PDict kvs) (PStr k) = Inr (PList (PDict e # others))"
    using getitem_dict_distinct[OF assms(1,2)] .
  have ef: "ensure_float float_of_str c = Inr c"
    using assms(5) by (cases c) (simp_all add: ensure_float_def)
  have "make_row float_of_str (PStr k) (PDict e) =
      Inr \<lparr>model = m, total_cost = c, user = PStr k, total_tokens = t\<rparr>"
    by (simp add: make_row_def assms(3,4,6,7,8) ef)
  then have "try_body float_of_str (PDict kvs) (PStr k) rcd =
      (Some (PDict e), Inr \<lparr>model = m, total_cost = c, user = PStr k, total_tokens = t\<rparr>)"
    by (simp add: try_body_def g seq_getitem_def del: getitem.simps(1))
  then show ?thesis by simp
qed

theorem loop_keeps_cost_that_is_not_str_witness:
  "distinct (map fst null_cost_users)
   \<and> (''dee'', PList [PDict (usage_entry ''gpt-4'' PNone (PInt 1) (PInt 2))]) \<in> set null_cost_users
   \<and> map_of (usage_entry ''gpt-4'' PNone (PInt 1) (PInt 2)) ''total_cost'' = Some PNone
   \<and> \<not> is_str PNone
   \<and> add (PInt 1) (PInt 2) = Inr (PInt 3)
   \<and> loop decimal_literal (PDict null_cost_users) [PStr ''dee''] (None, [], []) =
       Inr (Some (PDict (usage_entry ''gpt-4'' PNone (PInt 1) (PInt 2))),
            [\<lparr>model = PStr ''gpt-4'', total_cost = PNone, user = PStr ''dee'',
              total_tokens = PInt 3\<rparr>], [])
   \<and> process_data decimal_literal (PDict null_cost_users) =
       Inr ([\<lparr>model = PStr ''gpt-4'', total_cost = PNone, user = PStr ''dee'',
              total_tokens = PInt 3\<rparr>], [])"
proof -
  let ?e = "usage_entry ''gpt-4'' PNone (PInt 1) (PInt 2)"
  have d: "distinct (map fst null_cost_users)"
    by (simp add: null_cost_users_def)
  have m: "(''dee'', PList (PDict ?e # [])) \<in> set null_cost_users"
    by (simp add: null_cost_users_def)
  have f: "map_of ?e ''model'' = Some (PStr ''gpt-4'')" "map_of ?e ''total_cost'' = Some PNone"
    "map_of ?e ''input_tokens'' = Some (PInt 1)" "map_of ?e ''output_tokens'' = Some (PInt 2)"
    by (simp_all add: usage_entry_def)
  have s: "\<not> is_str PNone" by simp
  have a: "add (PInt 1) (PInt 2) = Inr (PInt 3)" by (simp add: add_def)
  have l: "loop decimal_literal (PDict null_cost_users) [PStr ''dee''] (None, [], []) =
       Inr (Some (PDict ?e),
            [\<lparr>model = PStr ''gpt-4'', total_cost = PNone, user = PStr ''dee'',
              total_tokens = PInt 3\<rparr>], [])"
    using loop_keeps_cost_that_is_not_str[OF d m f(1) f(2) s f(3) f(4) a,
        of decimal_literal "[]" None "[]" "[]"]
    by simp
  then have "process_data decimal_literal (PDict null_cost_users) =
       Inr ([\<lparr>model = PStr ''gpt-4'', total_cost = PNone, user = PStr ''dee'',
              total_tokens = PInt 3\<rparr>], [])"
    by (simp add: process_data_def null_cost_users_def)
  with d m f s a l show ?thesis by simp
qed

section \<open>The tables of \<open>plot_data\<close>\<close>

text \<open>
  Claim C7. With no records \<open>process_data\<close> returns the empty frame and shows its warning,
  and \<open>plot_data\<close> on the empty frame gives, whatever the order of ties, two empty tables
  by model and a table by user whose only row is \<open>Total\<close> with cost 0 and tokens 0.
\<close>

theorem plot_data_empty:
  "plot_data ties_tokens ties_cost ties_users [] =
     ([], [], [\<lparr>u_user = ''Total'', u_total_cost = 0, u_total_tokens = 0\<rparr>])
   \<and> process_data float_of_str (PDict []) = Inr ([], [No_valid_data_found])
   \<and> DataFrame [] = Some []"
  by (simp add: plot_data_def data_models_tokens_def data_models_cost_def data_users_def
      groupby_sum_def groupby_user_def sort_values_desc_def process_data_def DataFrame_def)

text \<open>
  Claim C9. The end-to-end example of the specification, with \<open>float("1.50") = 1.5\<close>:
  \<open>process_data\<close> returns the two records and no message, the frame built from them has
  the single model row \<open>(gpt-4, 3.5)\<close> by cost, and the table by user lists \<open>b@x.com\<close>, then
  \<open>a@x.com\<close>, then \<open>Total\<close> with cost 3.5 and 170 tokens. No two sums are equal, so the
  tables are the same for every order of ties.
\<close>

theorem end_to_end_example:
  assumes "float_of_str ''1.50'' = Some (3 / 2)"
  shows "process_data float_of_str spec_example =
           Inr ([\<lparr>model = PStr ''gpt-4'', total_cost = PFloat (3 / 2), user = PStr ''a@x.com'',
                   total_tokens = PInt 150\<rparr>,
                 \<lparr>model = PStr ''gpt-4'', total_cost = PFloat 2, user = PStr ''b@x.com'',
                   total_tokens = PInt 20\<rparr>], [])
         \<and> (\<exists>rows shown df. process_data float_of_str spec_example = Inr (rows, shown)
              \<and> DataFrame rows = Some df
              \<and> data_models_cost ties_cost df = [(''gpt-4'', 7 / 2)]
              \<and> data_models_tokens ties_tokens df = [(''gpt-4'', 170)]
              \<and> data_users ties_users df =
                  [\<lparr>u_user = ''b@x.com'', u_total_cost = 2, u_total_tokens = 20\<rparr>,
                   \<lparr>u_user = ''a@x.com'', u_total_cost = 3 / 2, u_total_tokens = 150\<rparr>,
                   \<lparr>u_user = ''Total'', u_total_cost = 7 / 2, u_total_tokens = 170\<rparr>])"
proof -
  have p: "process_data float_of_str spec_example =
           Inr ([\<lparr>model = PStr ''gpt-4'', total_cost = PFloat (3 / 2), user = PStr ''a@x.com'',
                   total_tokens = PInt 150\<rparr>,
                 \<lparr>model = PStr ''gpt-4'', total_cost = PFloat 2, user = PStr ''b@x.com'',
                   total_tokens = PInt 20\<rparr>], [])"
    by (simp add: process_data_def spec_example_def usage_entry_def try_body_def seq_getitem_def
        make_row_def ensure_float_def add_def assms)
  let ?df = "[\<lparr>model = ''gpt-4'', total_cost = 3 / 2, user = ''a@x.com'', total_tokens = 150\<rparr>,
              \<lparr>model = ''gpt-4'', total_cost = 2, user = ''b@x.com'', total_tokens = 20\<rparr>]
             :: frame_row list"
  have f: "DataFrame [\<lparr>model = PStr ''gpt-4'', total_cost = PFloat (3 / 2), user = PStr ''a@x.com'',
                   total_tokens = PInt 150\<rparr>,
                 \<lparr>model = PStr ''gpt-4'', total_cost = PFloat 2, user = PStr ''b@x.com'',
                   total_tokens = PInt 20\<rparr>] = Some ?df"
    by (simp add: DataFrame_def)
  have c: "data_models_cost ties_cost ?df = [(''gpt-4'', 7 / 2)]"
    by (simp add: data_models_cost_def groupby_sum_def sort_values_desc_def)
  have t: "data_models_tokens ties_tokens ?df = [(''gpt-4'', 170)]"
    by (simp add: data_models_tokens_def groupby_sum_def sort_values_desc_def)
  have u: "data_users ties_users ?df =
                  [\<lparr>u_user = ''b@x.com'', u_total_cost = 2, u_total_tokens = 20\<rparr>,
                   \<lparr>u_user = ''a@x.com'', u_total_cost = 3 / 2, u_total_tokens = 150\<rparr>,
                   \<lparr>u_user = ''Total'', u_total_cost = 7 / 2, u_total_tokens = 170\<rparr>]"
    by (simp add: data_users_def groupby_user_def sort_values_desc_def)
  from p f c t u show ?thesis by blast
qed

theorem end_to_end_example_witness:
  "decimal_literal ''1.50'' = Some (3 / 2)
   \<and> process_data decimal_literal spec_example =
           Inr ([\<lparr>model = PStr ''gpt-4'', total_cost = PFloat (3 / 2), user = PStr ''a@x.com'',
                   total_tokens = PInt 150\<rparr>,
                 \<lparr>model = PStr ''gpt-4'', total_cost = PFloat 2, user = PStr ''b@x.com'',
                   total_tokens = PInt 20\<rparr>], [])
   \<and> (\<exists>rows shown df. process_data decimal_literal spec_example = Inr (rows, shown)
              \<and> DataFrame rows = Some df
              \<and> data_models_cost (rank_first ''gpt-4'') df = [(''gpt-4'', 7 / 2)]
              \<and> data_models_tokens (rank_first ''gpt-4'') df = [(''gpt-4'', 170)]
              \<and> data_users (\<lambda>r. 0) df =
                  [\<lparr>u_user = ''b@x.com'', u_total_cost = 2, u_total_tokens = 20\<rparr>,
                   \<lparr>u_user = ''a@x.com'', u_total_cost = 3 / 2, u_total_tokens = 150\<rparr>,
                   \<lparr>u_user = ''Total'', u_total_cost = 7 / 2, u_total_tokens = 170\<rparr>])"
proof -
  have h: "decimal_literal ''1.50'' = Some (3 / 2)"
    by (simp add: decimal_literal_def digit_value_def)
  from end_to_end_example[of decimal_literal "rank_first ''gpt-4''" "rank_first ''gpt-4''" "\<lambda>r. 0", OF h] h
  show ?thesis by blast
qed

subsection \<open>Sorting by a column, descending\<close>

lemma set_sort_values_desc [simp]: "set (sort_values_desc ties f xs) = set xs"
  by (simp add: sort_values_desc_def)

lemma length_sort_values_desc [simp]: "length (sort_values_desc ties f xs) = length xs"
  by (simp add: sort_values_desc_def)

lemma distinct_sort_values_desc [simp]: "distinct (sort_values_desc ties f xs) = distinct xs"
  by (simp add: sort_values_desc_def)

lemma sorted_sort_values_desc:
  fixes f :: "'a \<Rightarrow> 'v::linorder"
  shows "sorted_wrt (\<lambda>a b. f b \<le> f a) (sort_values_desc ties f xs)"
proof -
  have "sorted (map f (sort_key f (rev (sort_key ties xs))))"
    by (rule sorted_sort_key)
  then have "sorted_wrt (\<lambda>a b. f a \<le> f b) (sort_key f (rev (sort_key ties xs)))"
    by (simp add: sorted_wrt_map)
  then show ?thesis
    by (simp add: sort_values_desc_def sorted_wrt_rev)
qed

text \<open>A constant order of ties is a stable sort: pandas' reversal around a stable argsort.\<close>

lemma sort_values_desc_stable: "sort_values_desc (\<lambda>r. c) f xs = rev (sort_key f (rev xs))"
  by (simp add: sort_values_desc_def sort_key_const)

text \<open>Inserting a row whose rank is above all ranks of a list sorted by value and, among
  equal values, by descending rank keeps that order: the row goes before its equals.\<close>

lemma insort_key_lex:
  fixes f :: "'a \<Rightarrow> 'v::linorder" and g :: "'a \<Rightarrow> 'k::order"
  assumes "sorted_wrt (\<lambda>a b. f a < f b \<or> (f a = f b \<and> g b < g a)) ys"
    and "\<forall>y\<in>set ys. g y < g x"
  shows "sorted_wrt (\<lambda>a b. f a < f b \<or> (f a = f b \<and> g b < g a)) (insort_key f x ys)"
  using assms
proof (induction ys)
  case Nil
  then show ?case by simp
next
  case (Cons y ys)
  show ?case
  proof (cases "f x \<le> f y")
    case True
    have "\<forall>z\<in>set (y # ys). f x < f z \<or> (f x = f z \<and> g z < g x)"
      using True Cons.prems by (auto simp: le_less)
    with Cons.prems(1) True show ?thesis by simp
  next
    case False
    with Cons show ?thesis by (auto simp: set_insort_key)
  qed
qed

lemma sort_key_rev_lex:
  fixes f :: "'a \<Rightarrow> 'v::linorder" and g :: "'a \<Rightarrow> 'k::order"
  shows "sorted_wrt (\<lambda>a b. g a < g b) xs \<Longrightarrow>
    sorted_wrt (\<lambda>a b. f a < f b \<or> (f a = f b \<and> g b < g a)) (sort_key f (rev xs))"
proof (induction xs rule: rev_induct)
  case Nil
  then show ?case by simp
next
  case (snoc x xs)
  from snoc.prems have s: "sorted_wrt (\<lambda>a b. g a < g b) xs" and lt: "\<forall>y\<in>set xs. g y < g x"
    by (simp_all add: sorted_wrt_append)
  from lt have "\<forall>y\<in>set (sort_key f (rev xs)). g y < g x" by simp
  from insort_key_lex[OF snoc.IH[OF s] this] show ?case by simp
qed

text \<open>When no two rows have the same rank, the outcome is in descending order of the value
  and, among equal values, in ascending order of the rank.\<close>

lemma sort_values_desc_lex:
  fixes f :: "'a \<Rightarrow> 'v::linorder"
  assumes "distinct xs" and "inj_on ties (set xs)"
  shows "sorted_wrt (\<lambda>a b. f b < f a \<or> (f a = f b \<and> ties a < ties b))
           (sort_values_desc ties f xs)"
proof -
  have "sorted (map ties (sort_key ties xs))"
    by (rule sorted_sort_key)
  moreover have "distinct (map ties (sort_key ties xs))"
    using assms by (simp add: distinct_map)
  ultimately have "sorted_wrt (<) (map ties (sort_key ties xs))"
    by (simp add: strict_sorted_iff)
  then have "sorted_wrt (\<lambda>a b. ties a < ties b) (sort_key ties xs)"
    by (simp add: sorted_wrt_map)
  from sort_key_rev_lex[OF this, of f]
  have "sorted_wrt (\<lambda>a b. f b < f a \<or> (f b = f a \<and> ties a < ties b))
          (rev (sort_key f (rev (sort_key ties xs))))"
    by (simp add: sorted_wrt_rev)
  then show ?thesis
    by (simp add: sort_values_desc_def eq_commute[of "f _" "f _"] cong: conj_cong)
qed

text \<open>Two lists of the same distinct elements, both in the order of a relation that never
  holds both ways, are the same list.\<close>

lemma sorted_wrt_distinct_unique:
  assumes asym: "\<And>a b. R a b \<Longrightarrow> R b a \<Longrightarrow> False"
  shows "sorted_wrt R xs \<Longrightarrow> sorted_wrt R ys \<Longrightarrow> distinct xs \<Longrightarrow> distinct ys \<Longrightarrow>
    set xs = set ys \<Longrightarrow> xs = ys"
proof (induction xs arbitrary: ys)
  case Nil
  then show ?case by simp
next
  case (Cons x xs)
  from Cons.prems(5) obtain y ys' where ys: "ys = y # ys'"
    by (cases ys) auto
  have xy: "x = y"
  proof (rule ccontr)
    assume ne: "x \<noteq> y"
    with Cons.prems(5) ys have "x \<in> set ys'" by auto
    with Cons.prems(2) ys have 1: "R y x" by simp
    from ne Cons.prems(5) ys have "y \<in> set xs" by auto
    with Cons.prems(1) have "R x y" by simp
    with 1 asym show False by blast
  qed
  from Cons.prems(3,4,5) ys xy have "set xs = set ys'" by auto
  with Cons.IH[of ys'] Cons.prems(1,2,3,4) ys xy show ?case by simp
qed

lemma position_nth: "distinct xs \<Longrightarrow> i < length xs \<Longrightarrow> position (xs ! i) xs = i"
proof (induction xs arbitrary: i)
  case Nil
  then show ?case by simp
next
  case (Cons x xs)
  then show ?case by (cases i) (auto simp: position_def)
qed

lemma position_inj: "distinct xs \<Longrightarrow> inj_on (\<lambda>r. position r xs) (set xs)"
  by (rule inj_onI) (metis in_set_conv_nth position_nth)

lemma sorted_wrt_position:
  fixes f :: "'a \<Rightarrow> 'v::linorder"
  assumes "distinct xs" and "sorted_wrt (\<lambda>a b. f b \<le> f a) xs"
  shows "sorted_wrt (\<lambda>a b. f b < f a \<or> (f a = f b \<and> position a xs < position b xs)) xs"
  unfolding sorted_wrt_iff_nth_less
proof (intro allI impI)
  fix i j
  assume ij: "i < j" and j: "j < length xs"
  with assms(2) have "f (xs ! j) \<le> f (xs ! i)"
    by (simp add: sorted_wrt_iff_nth_less)
  moreover from ij j assms(1) have "position (xs ! i) xs < position (xs ! j) xs"
    by (simp add: position_nth)
  ultimately show "f (xs ! j) < f (xs ! i)
      \<or> (f (xs ! i) = f (xs ! j) \<and> position (xs ! i) xs < position (xs ! j) xs)"
    by auto
qed

text \<open>Every arrangement of a frame of distinct rows in descending order of the column is
  the outcome of \<open>sort_values_desc\<close> for some order of ties: the positions of the rows in
  that arrangement.\<close>

lemma sort_values_desc_any_order:
  fixes f :: "'a \<Rightarrow> 'v::linorder"
  assumes "distinct xs" and "distinct out" and "set out = set xs"
    and "sorted_wrt (\<lambda>a b. f b \<le> f a) out"
  shows "sort_values_desc (\<lambda>r. position r out) f xs = out"
proof -
  let ?R = "\<lambda>a b. f b < f a \<or> (f a = f b \<and> position a out < position b out)"
  have "inj_on (\<lambda>r. position r out) (set xs)"
    using position_inj[OF assms(2)] assms(3) by simp
  from sort_values_desc_lex[OF assms(1) this, of f]
  have 1: "sorted_wrt ?R (sort_values_desc (\<lambda>r. position r out) f xs)" .
  have 2: "sorted_wrt ?R out"
    by (rule sorted_wrt_position[OF assms(2) assms(4)])
  have asym: "\<And>a b. ?R a b \<Longrightarrow> ?R b a \<Longrightarrow> False"
    by auto
  show ?thesis
    by (rule sorted_wrt_distinct_unique[of ?R, OF asym 1 2]) (simp_all add: assms)
qed

lemma take_sorted_keeps_largest:
  fixes f :: "'a \<Rightarrow> 'v::linorder"
  assumes "sorted_wrt (\<lambda>a b. f b \<le> f a) xs"
  shows "\<forall>d\<in>set xs - set (take n xs). \<forall>t\<in>set (take n xs). f d \<le> f t"
proof -
  have "sorted_wrt (\<lambda>a b. f b \<le> f a) (take n xs @ drop n xs)"
    using assms by simp
  then have "\<forall>t\<in>set (take n xs). \<forall>d\<in>set (drop n xs). f d \<le> f t"
    unfolding sorted_wrt_append by blast
  moreover have "set xs - set (take n xs) \<subseteq> set (drop n xs)"
    using set_append[of "take n xs" "drop n xs"] by auto
  ultimately show ?thesis by blast
qed

subsection \<open>The groups\<close>

lemma groupby_sum_keys: "map fst (groupby_sum key col df) = sort (remdups (map key df))"
  by (simp add: groupby_sum_def comp_def)

lemma distinct_groupby_sum: "distinct (map fst (groupby_sum key col df))"
  by (simp only: groupby_sum_keys) simp

lemma length_groupby_sum: "length (groupby_sum key col df) = card (key ` set df)"
proof -
  have "length (groupby_sum key col df) = length (remdups (map key df))"
    by (simp add: groupby_sum_def)
  then show ?thesis by (simp add: length_remdups_card_conv)
qed

lemma set_groupby_sum: "set (groupby_sum key col df) = group_sums key col df"
  by (simp add: groupby_sum_def group_sums_def)

text \<open>Grouping a frame and grouping its reverse, in which the keys are first met in the
  opposite order, give the same table; so do the two tables by model, whatever the order
  of ties.\<close>

lemma groupby_sum_rev:
  fixes col :: "'r \<Rightarrow> 'v::comm_monoid_add"
  shows "groupby_sum key col (rev df) = groupby_sum key col df"
proof -
  have k: "sort (remdups (map key (rev df))) = sort (remdups (map key df))"
    by (rule sorted_distinct_set_unique) simp_all
  have s: "sum_list (map col (filter (\<lambda>r. key r = k) (rev df)))
      = sum_list (map col (filter (\<lambda>r. key r = k) df))" for k
  proof -
    have "map col (filter (\<lambda>r. key r = k) (rev df)) = rev (map col (filter (\<lambda>r. key r = k) df))"
      by (simp add: rev_filter rev_map)
    then show ?thesis
      by (simp only: sum_list_rev)
  qed
  show ?thesis
    by (simp only: groupby_sum_def k s)
qed

lemma data_models_rev:
  "data_models_tokens ties (rev df) = data_models_tokens ties df"
  "data_models_cost ties' (rev df) = data_models_cost ties' df"
  by (simp_all add: data_models_tokens_def data_models_cost_def groupby_sum_rev)

lemma top_groups:
  fixes col :: "'r \<Rightarrow> 'v::{linorder,monoid_add}"
  assumes "tbl = take 10 (sort_values_desc ties snd (groupby_sum key col df))"
  shows "length tbl = min 10 (card (key ` set df))"
    and "sorted_wrt (\<lambda>a b. snd b \<le> snd a) tbl"
    and "distinct (map fst tbl)"
    and "set tbl \<subseteq> group_sums key col df"
    and "\<forall>d\<in>group_sums key col df - set tbl. \<forall>t\<in>set tbl. snd d \<le> snd t"
proof -
  let ?G = "groupby_sum key col df"
  let ?R = "sort_values_desc ties snd ?G"
  have R: "sorted_wrt (\<lambda>a b. snd b \<le> snd a) ?R"
    by (rule sorted_sort_values_desc)
  show "length tbl = min 10 (card (key ` set df))"
    by (simp add: assms length_groupby_sum min.commute)
  show "sorted_wrt (\<lambda>a b. snd b \<le> snd a) tbl"
    unfolding assms using R by (rule sorted_wrt_take)
  have "distinct (map fst ?R)"
    using distinct_groupby_sum[of key col df] by (simp add: distinct_map)
  then have "distinct (take 10 (map fst ?R))"
    by (rule distinct_take)
  then show "distinct (map fst tbl)"
    by (simp add: assms take_map)
  show "set tbl \<subseteq> group_sums key col df"
    unfolding assms using set_take_subset[of 10 ?R] by (simp add: set_groupby_sum)
  show "\<forall>d\<in>group_sums key col df - set tbl. \<forall>t\<in>set tbl. snd d \<le> snd t"
    unfolding assms using take_sorted_keeps_largest[OF R, of 10] by (simp add: set_groupby_sum)
qed

text \<open>
  Claim C6, as the code has it. Whatever the order of ties, each of the two tables by
  model has the ten groups of largest sum, or all groups when the frame has fewer than ten
  models: its length is the smaller of 10 and the number of models, its rows are groups (a
  model with the sum of the column over the rows of that model), no model twice, and no
  group left out has a larger sum than a row kept. The rows are in descending order of the
  sum. Nothing is said of the order among rows of equal sum, nor of which of them are kept
  at the cut of ten: the sort fixes neither.
\<close>

theorem top_models_by_sum:
  "length (data_models_tokens ties df) = min 10 (card (model ` set df))
   \<and> length (data_models_cost ties' df) = min 10 (card (model ` set df))
   \<and> sorted_wrt (\<lambda>a b. snd b \<le> snd a) (data_models_tokens ties df)
   \<and> sorted_wrt (\<lambda>a b. snd b \<le> snd a) (data_models_cost ties' df)
   \<and> distinct (map fst (data_models_tokens ties df))
   \<and> distinct (map fst (data_models_cost ties' df))
   \<and> set (data_models_tokens ties df) \<subseteq> group_sums model total_tokens df
   \<and> set (data_models_cost ties' df) \<subseteq> group_sums model total_cost df
   \<and> (\<forall>d\<in>group_sums model total_tokens df - set (data_models_tokens ties df).
         \<forall>t\<in>set (data_models_tokens ties df). snd d \<le> snd t)
   \<and> (\<forall>d\<in>group_sums model total_cost df - set (data_models_cost ties' df).
         \<forall>t\<in>set (data_models_cost ties' df). snd d \<le> snd t)"
proof -
  note t = top_groups[OF data_models_tokens_def[of ties df]]
  note c = top_groups[OF data_models_cost_def[of ties' df]]
  show ?thesis
    by (intro conjI t c)
qed

theorem top_models_by_sum_witness:
  "card (model ` set eleven_models) = 11
   \<and> data_models_tokens (\<lambda>r. 0) eleven_models =
       [(''a'', 11), (''h'', 10), (''e'', 9), (''j'', 8), (''c'', 7),
        (''k'', 6), (''f'', 5), (''i'', 4), (''b'', 3), (''d'', 2)]
   \<and> length (data_models_tokens (\<lambda>r. 0) eleven_models) = 10
   \<and> (''g'', 2) \<in> group_sums model total_tokens eleven_models
                    - set (data_models_tokens (\<lambda>r. 0) eleven_models)
   \<and> (''b'', 3) \<in> set (data_models_tokens (\<lambda>r. 0) eleven_models)
   \<and> snd (''g'', 2 :: int) \<le> snd (''b'', 3 :: int)
   \<and> data_models_tokens (rank_first ''g'') eleven_models =
       [(''a'', 11), (''h'', 10), (''e'', 9), (''j'', 8), (''c'', 7),
        (''k'', 6), (''f'', 5), (''i'', 4), (''b'', 3), (''g'', 2)]
   \<and> length (data_models_tokens (rank_first ''g'') eleven_models) = 10
   \<and> (''d'', 2) \<in> group_sums model total_tokens eleven_models
                    - set (data_models_tokens (rank_first ''g'') eleven_models)
   \<and> (''g'', 2) \<in> set (data_models_tokens (rank_first ''g'') eleven_models)
   \<and> snd (''d'', 2 :: int) \<le> snd (''g'', 2 :: int)"
proof -
  have c: "card (model ` set eleven_models) = 11"
    by (simp add: eleven_models_def)
  have G: "groupby_sum model total_tokens eleven_models =
       [(''a'', 11), (''b'', 3), (''c'', 7), (''d'', 2), (''e'', 9), (''f'', 5),
        (''g'', 2), (''h'', 10), (''i'', 4), (''j'', 8), (''k'', 6)]"
    by (simp add: eleven_models_def groupby_sum_def)
  have t: "data_models_tokens (\<lambda>r. 0) eleven_models =
       [(''a'', 11), (''h'', 10), (''e'', 9), (''j'', 8), (''c'', 7),
        (''k'', 6), (''f'', 5), (''i'', 4), (''b'', 3), (''d'', 2)]"
    by (simp add: data_models_tokens_def G sort_values_desc_def)
  have t': "data_models_tokens (rank_first ''g'') eleven_models =
       [(''a'', 11), (''h'', 10), (''e'', 9), (''j'', 8), (''c'', 7),
        (''k'', 6), (''f'', 5), (''i'', 4), (''b'', 3), (''g'', 2)]"
    by (simp add: data_models_tokens_def G sort_values_desc_def rank_first_def)
  have g: "(''g'', 2) \<in> group_sums model total_tokens eleven_models"
    and d: "(''d'', 2) \<in> group_sums model total_tokens eleven_models"
    by (simp_all add: set_groupby_sum[symmetric] G)
  have ng: "(''g'', 2) \<notin> set (data_models_tokens (\<lambda>r. 0) eleven_models)"
    and b: "(''b'', 3) \<in> set (data_models_tokens (\<lambda>r. 0) eleven_models)"
    by (simp_all add: t)
  have nd: "(''d'', 2) \<notin> set (data_models_tokens (rank_first ''g'') eleven_models)"
    and g': "(''g'', 2) \<in> set (data_models_tokens (rank_first ''g'') eleven_models)"
    by (simp_all add: t')
  from top_models_by_sum[of "\<lambda>r. 0" eleven_models] g ng b
  have 1: "snd (''g'', 2 :: int) \<le> snd (''b'', 3 :: int)" by blast
  from top_models_by_sum[of "rank_first ''g''" eleven_models] d nd g'
  have 2: "snd (''d'', 2 :: int) \<le> snd (''g'', 2 :: int)" by blast
  from top_models_by_sum[of "\<lambda>r. 0" eleven_models] c
  have 3: "length (data_models_tokens (\<lambda>r. 0) eleven_models) = 10" by simp
  from top_models_by_sum[of "rank_first ''g''" eleven_models] c
  have 4: "length (data_models_tokens (rank_first ''g'') eleven_models) = 10" by simp
  from c t t' g ng b nd d g' 1 2 3 4 show ?thesis by blast
qed

text \<open>
  The claim as stated fails on ties. \<open>tie_frame\<close> meets \<open>llama\<close> first and \<open>gpt-4\<close> second,
  its reverse meets them the other way round, and the two models have equal sums. Grouping
  gives the same table for both frames, \<open>gpt-4\<close> then \<open>llama\<close>, and the sort sees that table
  only: whatever its order of ties, the two frames get the same table by tokens and the
  same table by cost, so for neither table can the ties be in the order of first encounter
  for both frames. Nor is any other order of ties fixed: a stable sort lists \<open>gpt-4\<close> first,
  another descending sort lists \<open>llama\<close> first.
\<close>

theorem ties_not_in_first_seen_order:
  "map model tie_frame = [''llama'', ''gpt-4'']
   \<and> map model (rev tie_frame) = [''gpt-4'', ''llama'']
   \<and> groupby_sum model total_tokens tie_frame = [(''gpt-4'', 5), (''llama'', 5)]
   \<and> groupby_sum model total_tokens (rev tie_frame) = [(''gpt-4'', 5), (''llama'', 5)]
   \<and> groupby_sum model total_cost tie_frame = [(''gpt-4'', 1), (''llama'', 1)]
   \<and> groupby_sum model total_cost (rev tie_frame) = [(''gpt-4'', 1), (''llama'', 1)]
   \<and> (\<forall>ties. data_models_tokens ties (rev tie_frame) = data_models_tokens ties tie_frame
         \<and> \<not> (ties_in_first_seen_order (map model tie_frame) (data_models_tokens ties tie_frame)
              \<and> ties_in_first_seen_order (map model (rev tie_frame))
                   (data_models_tokens ties (rev tie_frame))))
   \<and> (\<forall>ties. data_models_cost ties (rev tie_frame) = data_models_cost ties tie_frame
         \<and> \<not> (ties_in_first_seen_order (map model tie_frame) (data_models_cost ties tie_frame)
              \<and> ties_in_first_seen_order (map model (rev tie_frame))
                   (data_models_cost ties (rev tie_frame))))
   \<and> data_models_tokens (\<lambda>r. 0) tie_frame = [(''gpt-4'', 5), (''llama'', 5)]
   \<and> data_models_tokens (rank_first ''llama'') tie_frame = [(''llama'', 5), (''gpt-4'', 5)]
   \<and> data_models_cost (\<lambda>r. 0) tie_frame = [(''gpt-4'', 1), (''llama'', 1)]
   \<and> data_models_cost (rank_first ''llama'') tie_frame = [(''llama'', 1), (''gpt-4'', 1)]"
proof -
  have m: "map model tie_frame = [''llama'', ''gpt-4'']"
    "map model (rev tie_frame) = [''gpt-4'', ''llama'']"
    by (simp_all add: tie_frame_def)
  have G: "groupby_sum model total_tokens tie_frame = [(''gpt-4'', 5), (''llama'', 5)]"
    "groupby_sum model total_tokens (rev tie_frame) = [(''gpt-4'', 5), (''llama'', 5)]"
    "groupby_sum model total_cost tie_frame = [(''gpt-4'', 1), (''llama'', 1)]"
    "groupby_sum model total_cost (rev tie_frame) = [(''gpt-4'', 1), (''llama'', 1)]"
    by (simp_all add: tie_frame_def groupby_sum_def)
  have t: "data_models_tokens ties (rev tie_frame) = data_models_tokens ties tie_frame
         \<and> \<not> (ties_in_first_seen_order (map model tie_frame) (data_models_tokens ties tie_frame)
              \<and> ties_in_first_seen_order (map model (rev tie_frame))
                   (data_models_tokens ties (rev tie_frame)))" for ties
    by (simp add: data_models_tokens_def G m sort_values_desc_def
        ties_in_first_seen_order_def position_def)
  have c: "data_models_cost ties (rev tie_frame) = data_models_cost ties tie_frame
         \<and> \<not> (ties_in_first_seen_order (map model tie_frame) (data_models_cost ties tie_frame)
              \<and> ties_in_first_seen_order (map model (rev tie_frame))
                   (data_models_cost ties (rev tie_frame)))" for ties
    by (simp add: data_models_cost_def G m sort_values_desc_def
        ties_in_first_seen_order_def position_def)
  have e: "data_models_tokens (\<lambda>r. 0) tie_frame = [(''gpt-4'', 5), (''llama'', 5)]"
    "data_models_tokens (rank_first ''llama'') tie_frame = [(''llama'', 5), (''gpt-4'', 5)]"
    "data_models_cost (\<lambda>r. 0) tie_frame = [(''gpt-4'', 1), (''llama'', 1)]"
    "data_models_cost (rank_first ''llama'') tie_frame = [(''llama'', 1), (''gpt-4'', 1)]"
    by (simp_all add: data_models_tokens_def data_models_cost_def G sort_values_desc_def
        rank_first_def)
  from m G t c e show ?thesis by blast
qed

subsection \<open>The table by user\<close>

lemma users_groupby_user: "map u_user (groupby_user df) = sort (remdups (map user df))"
  by (simp add: groupby_user_def comp_def)

text \<open>
  Claim C8. Whatever the order of ties, the table by user is its rows but the last,
  followed by one row \<open>Total\<close> whose cost and tokens are the sums of those columns over the
  rows before it. Those rows are one per distinct user of the frame, none left out, each
  with the sums of the user's cost and tokens, in descending order of the summed cost.
\<close>

theorem data_users_total_row:
  "data_users ties df = butlast (data_users ties df) @
      [\<lparr>u_user = ''Total'',
        u_total_cost = sum_list (map u_total_cost (butlast (data_users ties df))),
        u_total_tokens = sum_list (map u_total_tokens (butlast (data_users ties df)))\<rparr>]
   \<and> distinct (map u_user (butlast (data_users ties df)))
   \<and> set (map u_user (butlast (data_users ties df))) = user ` set df
   \<and> length (butlast (data_users ties df)) = card (user ` set df)
   \<and> sorted_wrt (\<lambda>a b. u_total_cost b \<le> u_total_cost a) (butlast (data_users ties df))
   \<and> (\<forall>r\<in>set (butlast (data_users ties df)).
         u_total_cost r = sum_list (map total_cost (filter (\<lambda>x. user x = u_user r) df))
         \<and> u_total_tokens r = sum_list (map total_tokens (filter (\<lambda>x. user x = u_user r) df)))"
proof -
  let ?S = "sort_values_desc ties u_total_cost (groupby_user df)"
  have b: "butlast (data_users ties df) = ?S"
    by (simp add: data_users_def Let_def)
  have 1: "data_users ties df = ?S @
      [\<lparr>u_user = ''Total'', u_total_cost = sum_list (map u_total_cost ?S),
        u_total_tokens = sum_list (map u_total_tokens ?S)\<rparr>]"
    by (simp add: data_users_def Let_def)
  have 5: "sorted_wrt (\<lambda>a b. u_total_cost b \<le> u_total_cost a) ?S"
    by (rule sorted_sort_values_desc)
  have su: "set (map u_user ?S) = user ` set df"
  proof -
    have "set (map u_user ?S) = set (map u_user (groupby_user df))" by simp
    also have "\<dots> = user ` set df" by (simp only: users_groupby_user) simp
    finally show ?thesis .
  qed
  have dg: "distinct (map u_user (groupby_user df))"
    by (simp only: users_groupby_user) simp
  have lenS: "length ?S = card (user ` set df)"
  proof -
    have "length ?S = length (map u_user (groupby_user df))" by simp
    also have "\<dots> = length (remdups (map user df))" by (simp only: users_groupby_user) simp
    finally show ?thesis by (simp add: length_remdups_card_conv)
  qed
  have dS: "distinct (map u_user ?S)"
    using dg by (simp add: distinct_map)
  have 6: "\<forall>r\<in>set ?S.
         u_total_cost r = sum_list (map total_cost (filter (\<lambda>x. user x = u_user r) df))
         \<and> u_total_tokens r = sum_list (map total_tokens (filter (\<lambda>x. user x = u_user r) df))"
    by (auto simp: groupby_user_def)
  show ?thesis unfolding b using 1 dS su lenS 5 6 by blast
qed

theorem data_users_total_row_witness:
  "data_users (\<lambda>r. 0) users_frame =
     [\<lparr>u_user = ''b@x.com'', u_total_cost = 3, u_total_tokens = 20\<rparr>,
      \<lparr>u_user = ''a@x.com'', u_total_cost = 5 / 2, u_total_tokens = 155\<rparr>,
      \<lparr>u_user = ''Total'', u_total_cost = 11 / 2, u_total_tokens = 175\<rparr>]
   \<and> \<lparr>u_user = ''a@x.com'', u_total_cost = 5 / 2, u_total_tokens = 155\<rparr>
       \<in> set (butlast (data_users (\<lambda>r. 0) users_frame))
   \<and> sum_list (map total_cost (filter (\<lambda>x. user x = ''a@x.com'') users_frame)) = 5 / 2
   \<and> sum_list (map total_tokens (filter (\<lambda>x. user x = ''a@x.com'') users_frame)) = 155
   \<and> length (butlast (data_users (\<lambda>r. 0) users_frame)) = card (user ` set users_frame)"
proof -
  have u: "data_users (\<lambda>r. 0) users_frame =
     [\<lparr>u_user = ''b@x.com'', u_total_cost = 3, u_total_tokens = 20\<rparr>,
      \<lparr>u_user = ''a@x.com'', u_total_cost = 5 / 2, u_total_tokens = 155\<rparr>,
      \<lparr>u_user = ''Total'', u_total_cost = 11 / 2, u_total_tokens = 175\<rparr>]"
    by (simp add: users_frame_def data_users_def groupby_user_def sort_values_desc_def)
  have m: "\<lparr>u_user = ''a@x.com'', u_total_cost = 5 / 2, u_total_tokens = 155\<rparr>
       \<in> set (butlast (data_users (\<lambda>r. 0) users_frame))"
    by (simp add: u)
  from data_users_total_row[of "\<lambda>r. 0" users_frame] m
  have "u_total_cost \<lparr>u_user = ''a@x.com'', u_total_cost = 5 / 2, u_total_tokens = 155\<rparr> =
      sum_list (map total_cost (filter (\<lambda>x. user x =
        u_user \<lparr>u_user = ''a@x.com'', u_total_cost = 5 / 2, u_total_tokens = 155\<rparr>) users_frame))
    \<and> u_total_tokens \<lparr>u_user = ''a@x.com'', u_total_cost = 5 / 2, u_total_tokens = 155\<rparr> =
      sum_list (map total_tokens (filter (\<lambda>x. user x =
        u_user \<lparr>u_user = ''a@x.com'', u_total_cost = 5 / 2, u_total_tokens = 155\<rparr>) users_frame))"
    by blast
  then have s: "sum_list (map total_cost (filter (\<lambda>x. user x = ''a@x.com'') users_frame)) = 5 / 2"
    "sum_list (map total_tokens (filter (\<lambda>x. user x = ''a@x.com'') users_frame)) = 155"
    by simp_all
  from data_users_total_row[of "\<lambda>r. 0" users_frame]
  have "length (butlast (data_users (\<lambda>r. 0) users_frame)) = card (user ` set users_frame)"
    by blast
  with u m s show ?thesis by blast
qed

end
